theory Spec2Isabelle
  imports Main "HOL-Library.Log_Nat"
begin

section \<open>Python floats: IEEE 754 binary64 with round-to-nearest-even\<close>

text \<open>
  Every number the calculator computes with is a Python \<^verbatim>\<open>float\<close> (or a
  \<^verbatim>\<open>numpy.float64\<close> when a rate comes from the price sheet): an IEEE 754 binary64
  value. A finite value is modelled by the rational number it denotes, so that equality of
  model values is numeric equality; \<^verbatim>\<open>0.0\<close> and \<^verbatim>\<open>-0.0\<close>, which Python's
  \<^verbatim>\<open>==\<close> identifies, are both \<open>Finite 0\<close>. All NaNs are one value, and HOL
  equality holds between them (Python's \<^verbatim>\<open>==\<close> is modelled by \<open>fne\<close> below).
  Every arithmetic operation computes the exact rational result and rounds it to the
  nearest binary64 value, ties to the even mantissa, as the hardware does.
\<close>

datatype float64 = Finite rat | PosInf | NegInf | NaN

datatype py_error =
  FileNotFoundError | KeyError | ZeroDivisionError | UnboundLocalError | OtherException

text \<open>Rounding a rational to the nearest integer, ties to even.\<close>

definition round_half_even :: "rat \<Rightarrow> int" where
  "round_half_even x = (let f = \<lfloor>x\<rfloor>; d = x - of_int f in
     if d < 1/2 then f else if 1/2 < d then f + 1 else if even f then f else f + 1)"

text \<open>\<open>ilog2 q\<close> is the binary exponent of \<open>q \<noteq> 0\<close>: \<open>2 powi ilog2 q \<le> \<bar>q\<bar> < 2 powi (ilog2 q + 1)\<close>.\<close>

definition ilog2 :: "rat \<Rightarrow> int" where
  "ilog2 q = (if 1 \<le> \<bar>q\<bar> then bitlen \<lfloor>\<bar>q\<bar>\<rfloor> - 1 else - bitlen (\<lceil>1 / \<bar>q\<bar>\<rceil> - 1))"

text \<open>
  The exponent of the last mantissa bit: 53 significant bits for a normal number, the
  fixed exponent \<open>-1074\<close> in the subnormal range.
\<close>

definition ulp_exp :: "rat \<Rightarrow> int" where
  "ulp_exp q = max (ilog2 q - 52) (- 1074)"

definition round_to_grid :: "rat \<Rightarrow> rat" where
  "round_to_grid q = of_int (round_half_even (q / 2 powi ulp_exp q)) * 2 powi ulp_exp q"

text \<open>A rounded magnitude of \<open>2 powi 1024\<close> or more overflows to an infinity.\<close>

definition round64 :: "rat \<Rightarrow> float64" where
  "round64 q = (if q = 0 then Finite 0 else
     let r = round_to_grid q
     in if 2 powi 1024 \<le> r then PosInf else if r \<le> - (2 powi 1024) then NegInf else Finite r)"

text \<open>A model value is a binary64 value when rounding leaves it unchanged.\<close>

fun is_float64 :: "float64 \<Rightarrow> bool" where
  "is_float64 (Finite r) = (round64 r = Finite r)"
| "is_float64 PosInf = True"
| "is_float64 NegInf = True"
| "is_float64 NaN = True"

fun fsign :: "float64 \<Rightarrow> rat option" where
  "fsign (Finite r) = Some (sgn r)"
| "fsign PosInf = Some 1"
| "fsign NegInf = Some (- 1)"
| "fsign NaN = None"

fun fneg :: "float64 \<Rightarrow> float64" where
  "fneg (Finite r) = Finite (- r)"
| "fneg PosInf = NegInf"
| "fneg NegInf = PosInf"
| "fneg NaN = NaN"

fun fadd :: "float64 \<Rightarrow> float64 \<Rightarrow> float64" where
  "fadd (Finite a) (Finite b) = round64 (a + b)"
| "fadd NaN y = NaN"
| "fadd x NaN = NaN"
| "fadd PosInf NegInf = NaN"
| "fadd NegInf PosInf = NaN"
| "fadd PosInf y = PosInf"
| "fadd x PosInf = PosInf"
| "fadd NegInf y = NegInf"
| "fadd x NegInf = NegInf"

definition fsub :: "float64 \<Rightarrow> float64 \<Rightarrow> float64" where
  "fsub x y = fadd x (fneg y)"

text \<open>A product with an infinity has the sign of the signs; infinity times zero is NaN.\<close>

fun fmul :: "float64 \<Rightarrow> float64 \<Rightarrow> float64" where
  "fmul (Finite a) (Finite b) = round64 (a * b)"
| "fmul x y = (case (fsign x, fsign y) of
      (Some s, Some t) \<Rightarrow> if s * t = 0 then NaN else if 0 < s * t then PosInf else NegInf
    | _ \<Rightarrow> NaN)"

text \<open>
  Python's \<^verbatim>\<open>/\<close> on floats raises \<^verbatim>\<open>ZeroDivisionError\<close> for a zero divisor,
  whatever the dividend. (A \<^verbatim>\<open>numpy.float64\<close> dividend would give an infinity or
  NaN with a warning instead; the calculator divides behind a test for zero, so the two
  agree wherever it divides.) Multiplication, addition and division overflow to an
  infinity without raising.
\<close>

fun fdiv :: "float64 \<Rightarrow> float64 \<Rightarrow> py_error + float64" where
  "fdiv x (Finite b) =
     (if b = 0 then Inl ZeroDivisionError
      else case x of
          Finite a \<Rightarrow> Inr (round64 (a / b))
        | PosInf \<Rightarrow> Inr (if 0 < b then PosInf else NegInf)
        | NegInf \<Rightarrow> Inr (if 0 < b then NegInf else PosInf)
        | NaN \<Rightarrow> Inr NaN)"
| "fdiv x NaN = Inr NaN"
| "fdiv (Finite a) y = Inr (Finite 0)"
| "fdiv x y = Inr NaN"

text \<open>Python's \<^verbatim>\<open>>=\<close> and \<^verbatim>\<open>!=\<close>: every comparison with NaN is false, so \<^verbatim>\<open>!=\<close> is true.\<close>

fun fge :: "float64 \<Rightarrow> float64 \<Rightarrow> bool" where
  "fge (Finite a) (Finite b) = (b \<le> a)"
| "fge NaN y = False"
| "fge x NaN = False"
| "fge PosInf y = True"
| "fge x NegInf = True"
| "fge x y = False"

definition fne :: "float64 \<Rightarrow> float64 \<Rightarrow> bool" where
  "fne x y = (x = NaN \<or> y = NaN \<or> x \<noteq> y)"


text \<open>
  An \<^verbatim>\<open>int\<close> operand of a mixed operation is converted to the nearest float. The
  integer widget of the form returns values between 0 and \<open>2^53 - 1\<close> only, which convert
  exactly.
\<close>

definition float_of_int :: "int \<Rightarrow> float64" where
  "float_of_int i = round64 (of_int i)"

text \<open>Python's \<^verbatim>\<open>int / int\<close>: the correctly rounded quotient.\<close>

definition int_truediv :: "int \<Rightarrow> int \<Rightarrow> py_error + float64" where
  "int_truediv a b = (if b = 0 then Inl ZeroDivisionError else Inr (round64 (of_int a / of_int b)))"

section \<open>Text, messages and canvas operations\<close>

text \<open>
  An f-string is a list of pieces: literal text (with the interpolated strings already
  spliced in), a float formatted with \<^verbatim>\<open>:.2f\<close>, or the text of a caught exception.
\<close>

datatype piece = Lit string | Fix2 float64 | ErrText py_error

type_synonym fstring = "piece list"

datatype canvas_op =
    DrawImage float64 float64 float64 float64
  | SetFont string nat
  | SetFillColorRGB rat rat rat
  | DrawString float64 float64 fstring
  | ShowPage
  | Save

type_synonym pdf = "canvas_op list"

datatype ui_event =
    StError fstring
  | StWarning fstring
  | StSuccess fstring
  | StMarkdown fstring
  | StWrite fstring
  | DownloadButton string pdf string string
  | Print fstring

section \<open>Pricing configuration and the price sheet loader (app.py, lines 19-94)\<close>

definition LEKALINK_LOGO_PATH :: string where
  "LEKALINK_LOGO_PATH = ''assets/LL_Stacked_Gradient.png''"

definition DEFAULT_VM_RATE :: float64 where
  "DEFAULT_VM_RATE = round64 (86435 / 100)"

definition DEFAULT_STORAGE_RATE_PER_TB :: float64 where
  "DEFAULT_STORAGE_RATE_PER_TB = round64 (87040 / 100)"

definition DEFAULT_BANDWIDTH_RATE_PER_MBPS :: float64 where
  "DEFAULT_BANDWIDTH_RATE_PER_MBPS = round64 (750 / 100)"

text \<open>The three module globals that hold the rates in force.\<close>

record rate_table =
  VM_RATE :: float64
  STORAGE_RATE_PER_TB :: float64
  BANDWIDTH_RATE_PER_MBPS :: float64

definition initial_rates :: rate_table where
  "initial_rates = \<lparr>VM_RATE = DEFAULT_VM_RATE,
     STORAGE_RATE_PER_TB = DEFAULT_STORAGE_RATE_PER_TB,
     BANDWIDTH_RATE_PER_MBPS = DEFAULT_BANDWIDTH_RATE_PER_MBPS\<rparr>"


text \<open>
  What the loader finds on disk. \<open>Sheet df\<close> is the data frame that
  \<^verbatim>\<open>pd.read_csv\<close> returns, with the column names already stripped: each column name
  with its cells, a cell being a number (NaN when the field is empty) or a string.
  \<open>ReadFails\<close> stands for any exception of \<^verbatim>\<open>read_csv\<close>, of the stripping or of
  \<^verbatim>\<open>to_numeric\<close>.
\<close>

datatype cell = Number float64 | Text string










section \<open>The quote document (app.py, lines 206-315)\<close>

text \<open>
  The values of the form widgets when the button is pressed. The number widgets return an
  \<^verbatim>\<open>int\<close> for the machine count and floats for the rest, none of them negative; the
  text widgets return strings.
\<close>

record form =
  vms :: int
  storage :: float64
  bandwidth :: float64
  current_cost :: float64
  company_name :: string
  contact_name :: string
  job_title :: string
  email :: string
  phone :: string

text \<open>The dictionary \<^verbatim>\<open>quote_data\<close>: the form's entries and six more keys.\<close>

record quote_data = form +
  lekalink_cost :: float64
  monthly_savings :: float64
  percentage_savings :: float64
  vm_rate :: float64
  storage_rate_per_tb :: float64
  bandwidth_rate_per_mbps :: float64

definition inch :: float64 where
  "inch = Finite 72"

definition letter :: "float64 \<times> float64" where
  "letter = (Finite 612, Finite 792)"

definition PURPLE_RGB :: "rat \<times> rat \<times> rat" where
  "PURPLE_RGB = (3176 / 10000, 706 / 10000, 5059 / 10000)"

text \<open>
  The logo file as the renderer finds it: absent, present but not an image that
  \<^verbatim>\<open>ImageReader\<close> can open (it raises), or an image with its pixel width and height.
  The file does not change while one document is rendered.
\<close>

datatype logo_file = LogoAbsent | LogoUnreadable | LogoImage int int

definition logo_exists :: "logo_file \<Rightarrow> bool" where
  "logo_exists logo = (logo \<noteq> LogoAbsent)"

definition logo_error :: "py_error \<Rightarrow> ui_event" where
  "logo_error e = StError [Lit ''Error loading LekaLink logo for PDF: '', ErrText e]"

text \<open>
  The \<^verbatim>\<open>try\<close> block of lines 216-233 with its handler: the image drawn, the messages,
  and the local variable \<^verbatim>\<open>y_position_logo\<close>, which is \<open>None\<close> as long as no
  assignment to it has run.
\<close>

definition draw_logo ::
  "logo_file \<Rightarrow> float64 \<Rightarrow> float64 \<Rightarrow> canvas_op list \<times> ui_event list \<times> float64 option" where
  "draw_logo logo width height = (case logo of
      LogoAbsent \<Rightarrow>
        ([], [StWarning [Lit (''LekaLink logo not found at '' @ LEKALINK_LOGO_PATH
                              @ ''. Skipping logo in PDF.'')]], None)
    | LogoUnreadable \<Rightarrow> ([], [logo_error OtherException], None)
    | LogoImage img_width img_height \<Rightarrow>
        (let logo_display_width = fmul (round64 (15 / 10)) inch in
         case int_truediv img_height img_width of
           Inl e \<Rightarrow> ([], [logo_error e], None)
         | Inr ratio \<Rightarrow>
            (let logo_display_height = fmul logo_display_width ratio in
             case fdiv (fsub width logo_display_width) (float_of_int 2) of
               Inl e \<Rightarrow> ([], [logo_error e], None)
             | Inr x_position_logo \<Rightarrow>
                (let y_position_logo =
                       fsub (fsub height logo_display_height) (fmul (round64 (5 / 10)) inch)
                 in ([DrawImage x_position_logo y_position_logo
                        logo_display_width logo_display_height], [], Some y_position_logo)))))"

text \<open>\<^verbatim>\<open>y_position -= k * inch\<close>\<close>

definition down :: "float64 \<Rightarrow> rat \<Rightarrow> float64" where
  "down y_position k = fsub y_position (fmul (round64 k) inch)"

definition purple :: canvas_op where
  "purple = (case PURPLE_RGB of (r, g, b) \<Rightarrow> SetFillColorRGB r g b)"

definition black :: canvas_op where
  "black = SetFillColorRGB 0 0 0"

definition title_block :: "float64 \<Rightarrow> canvas_op list \<times> float64" where
  "title_block y =
     ([SetFont ''Helvetica-Bold'' 24, purple,
       DrawString inch y [Lit ''LekaLink Cloud Cost Quote'']],
      down y (5 / 10))"

definition client_block :: "quote_data \<Rightarrow> float64 \<Rightarrow> canvas_op list \<times> float64" where
  "client_block data y =
     (let y1 = down y (3 / 10); y2 = down y1 (25 / 100);
          y3 = down y2 (25 / 100); y4 = down y3 (25 / 100)
      in ([purple, SetFont ''Helvetica-Bold'' 14,
           DrawString inch y [Lit ''Client Information:''],
           black, SetFont ''Helvetica'' 12,
           DrawString inch y1 [Lit (''Company: '' @ company_name data)],
           DrawString inch y2
             [Lit (''Contact: '' @ contact_name data @ '' ('' @ job_title data @ '')'')],
           DrawString inch y3 [Lit (''Email: '' @ email data)],
           DrawString inch y4 [Lit (''Phone: '' @ phone data)]],
          down y4 (5 / 10)))"

definition current_block :: "quote_data \<Rightarrow> float64 \<Rightarrow> canvas_op list \<times> float64" where
  "current_block data y =
     (let y1 = down y (3 / 10)
      in ([purple, SetFont ''Helvetica-Bold'' 14,
           DrawString inch y [Lit ''Current Cloud Costs:''],
           black, SetFont ''Helvetica'' 12,
           DrawString inch y1 [Lit ''Monthly Cost: R'', Fix2 (current_cost data)]],
          down y1 (5 / 10)))"

text \<open>
  Lines 274-290: the three amounts are computed again here, from the quantities and the
  rates carried in the dictionary; the total is the dictionary's \<^verbatim>\<open>lekalink_cost\<close>.
\<close>

definition estimated_block :: "quote_data \<Rightarrow> float64 \<Rightarrow> canvas_op list \<times> float64" where
  "estimated_block data y =
     (let y1 = down y (3 / 10); y2 = down y1 (25 / 100);
          y3 = down y2 (25 / 100); y4 = down y3 (25 / 100)
      in ([purple, SetFont ''Helvetica-Bold'' 14,
           DrawString inch y [Lit ''LekaLink Estimated Costs:''],
           black, SetFont ''Helvetica'' 12,
           DrawString inch y1
             [Lit ''Virtual Machines: R'', Fix2 (fmul (float_of_int (vms data)) (vm_rate data))],
           DrawString inch y2
             [Lit ''Storage: R'', Fix2 (fmul (storage data) (storage_rate_per_tb data))],
           DrawString inch y3
             [Lit ''Bandwidth: R'', Fix2 (fmul (bandwidth data) (bandwidth_rate_per_mbps data))],
           SetFont ''Helvetica-Bold'' 12,
           DrawString inch y4
             [Lit ''Total LekaLink Estimated Cost: R'', Fix2 (lekalink_cost data)]],
          down y4 (5 / 10)))"

definition savings_block :: "quote_data \<Rightarrow> float64 \<Rightarrow> canvas_op list" where
  "savings_block data y =
     (let y1 = down y (3 / 10); y2 = down y1 (25 / 100)
      in [purple, SetFont ''Helvetica-Bold'' 14,
          DrawString inch y [Lit ''Potential Savings:''],
          black, SetFont ''Helvetica'' 12]
         @ (if fge (monthly_savings data) (Finite 0) then
              [SetFillColorRGB (8 / 100) (64 / 100) (29 / 100),
               DrawString inch y1 [Lit ''Monthly Savings: R'', Fix2 (monthly_savings data)],
               DrawString inch y2
                 [Lit ''Percentage Savings: '', Fix2 (percentage_savings data), Lit ''%'']]
            else
              [SetFillColorRGB (91 / 100) (30 / 100) (24 / 100),
               DrawString inch y1
                 [Lit ''Monthly Increase: R'', Fix2 (fneg (monthly_savings data))],
               DrawString inch y2
                 [Lit ''Percentage Increase: '', Fix2 (fneg (percentage_savings data)),
                  Lit ''%'']]))"

definition page_body :: "quote_data \<Rightarrow> float64 \<Rightarrow> canvas_op list" where
  "page_body data y0 =
     (let (title, y1) = title_block y0;
          (client, y2) = client_block data y1;
          (current, y3) = current_block data y2;
          (estimated, y4) = estimated_block data y3
      in title @ client @ current @ estimated @ savings_block data y4 @ [ShowPage, Save])"

text \<open>
  Line 237 reads \<^verbatim>\<open>y_position_logo\<close> whenever the logo file exists; reading a local
  variable that was never assigned raises \<^verbatim>\<open>UnboundLocalError\<close>, which nothing in
  \<^verbatim>\<open>create_pdf\<close> catches. The messages shown before the exception stay on the page.
\<close>

definition create_pdf :: "logo_file \<Rightarrow> quote_data \<Rightarrow> ui_event list \<times> (py_error + pdf)" where
  "create_pdf logo data =
     (let (width, height) = letter;
          (logo_ops, msgs, y_position_logo) = draw_logo logo width height
      in case (if \<not> logo_exists logo then Inr (down height (15 / 10))
               else case y_position_logo of
                   None \<Rightarrow> Inl UnboundLocalError
                 | Some y \<Rightarrow> Inr (down y (5 / 10))) of
           Inl e \<Rightarrow> (msgs, Inl e)
         | Inr y_position \<Rightarrow> (msgs, Inr (logo_ops @ page_body data y_position)))"


section \<open>The notifier (app.py, lines 317-353)\<close>

record email_message =
  msg_from :: string
  msg_to :: string
  msg_subject :: string
  msg_body :: fstring
  msg_attachment :: "(pdf \<times> string) option"

definition SENDER_EMAIL :: string where
  "SENDER_EMAIL = ''adriennek@intellicomms.co.za''"

text \<open>
  The mail transport (connect, STARTTLS, login, sendmail) is the parameter \<open>smtp\<close>: it
  delivers the message and returns \<open>None\<close>, or raises, and then returns the exception.
  An attachment is added when both the data and the file name are given and not empty.
\<close>

definition send_email ::
  "(email_message \<Rightarrow> py_error option) \<Rightarrow> string \<Rightarrow> string \<Rightarrow> fstring \<Rightarrow>
   pdf option \<Rightarrow> string option \<Rightarrow> bool \<times> ui_event list" where
  "send_email smtp recipient_email subject body attachment_data attachment_filename =
     (let msg = \<lparr>msg_from = SENDER_EMAIL, msg_to = recipient_email, msg_subject = subject,
                 msg_body = body,
                 msg_attachment = (case (attachment_data, attachment_filename) of
                     (Some d, Some n) \<Rightarrow> if d \<noteq> [] \<and> n \<noteq> [] then Some (d, n) else None
                   | _ \<Rightarrow> None)\<rparr>
      in case smtp msg of
           None \<Rightarrow> (True, [])
         | Some e \<Rightarrow> (False, [StError [Lit ''Failed to send email: '', ErrText e]]))"

section \<open>Validation and the interaction shell (app.py, lines 355-479)\<close>

definition validate_inputs ::
  "string \<Rightarrow> string \<Rightarrow> string \<Rightarrow> string \<Rightarrow> string \<Rightarrow> bool \<times> ui_event list" where
  "validate_inputs company contact title mail phone_number =
     (if company = [] then (False, [StError [Lit ''Company Name is required.'']])
      else if contact = [] then (False, [StError [Lit ''Contact Name is required.'']])
      else if title = [] then (False, [StError [Lit ''Job Title is required.'']])
      else if mail = [] then (False, [StError [Lit ''Email is required.'']])
      else if phone_number = [] then (False, [StError [Lit ''Phone Number is required.'']])
      else (True, []))"

text \<open>
  Lines 404-406: the three assignments to \<^verbatim>\<open>lekalink_cost\<close>,
  \<^verbatim>\<open>monthly_savings\<close> and \<^verbatim>\<open>percentage_savings\<close>. The percentage divides
  only when \<^verbatim>\<open>current_cost != 0\<close>.
\<close>

definition calc_lekalink_cost :: "rate_table \<Rightarrow> form \<Rightarrow> float64" where
  "calc_lekalink_cost R f =
     fadd (fadd (fmul (float_of_int (vms f)) (VM_RATE R))
                (fmul (storage f) (STORAGE_RATE_PER_TB R)))
          (fmul (bandwidth f) (BANDWIDTH_RATE_PER_MBPS R))"

definition calc_monthly_savings :: "rate_table \<Rightarrow> form \<Rightarrow> float64" where
  "calc_monthly_savings R f = fsub (current_cost f) (calc_lekalink_cost R f)"

definition calc_percentage_savings :: "rate_table \<Rightarrow> form \<Rightarrow> py_error + float64" where
  "calc_percentage_savings R f =
     (if fne (current_cost f) (float_of_int 0) then
        (case fdiv (calc_monthly_savings R f) (current_cost f) of
           Inl e \<Rightarrow> Inl e
         | Inr d \<Rightarrow> Inr (fmul d (float_of_int 100)))
      else Inr (float_of_int 0))"

definition calculate :: "rate_table \<Rightarrow> form \<Rightarrow> py_error + float64 \<times> float64 \<times> float64" where
  "calculate R f = (case calc_percentage_savings R f of
      Inl e \<Rightarrow> Inl e
    | Inr percentage \<Rightarrow> Inr (calc_lekalink_cost R f, calc_monthly_savings R f, percentage))"

definition nl :: string where
  "nl = [CHR 0x0A]"

text \<open>\<^verbatim>\<open>company_name.replace(' ', '_')\<close>\<close>

definition replace_spaces :: "string \<Rightarrow> string" where
  "replace_spaces s = map (\<lambda>c. if c = CHR '' '' then CHR ''_'' else c) s"

definition dq :: string where
  "dq = [CHR 0x22]"

definition results_card :: "float64 \<Rightarrow> float64 \<Rightarrow> float64 \<Rightarrow> ui_event list" where
  "results_card cost savings percentage =
     [StMarkdown [Lit (''<div class='' @ dq @ ''results-card'' @ dq @ ''>'')],
      StWrite [Lit ''### Your Estimated Savings with LekaLink''],
      StWrite [Lit ''**LekaLink Estimated Monthly Cost:** R'', Fix2 cost]]
     @ (if fge savings (Finite 0) then
          [StMarkdown [Lit (''<p class='' @ dq @ ''savings-positive'' @ dq
                            @ ''>**Monthly Savings:** R''), Fix2 savings, Lit ''</p>''],
           StMarkdown [Lit (''<p class='' @ dq @ ''savings-positive'' @ dq
                            @ ''>**Percentage Savings:** ''), Fix2 percentage, Lit ''%</p>'']]
        else
          [StMarkdown [Lit (''<p class='' @ dq @ ''savings-negative'' @ dq
                            @ ''>**Monthly Increase:** R''), Fix2 (fneg savings), Lit ''</p>''],
           StMarkdown [Lit (''<p class='' @ dq @ ''savings-negative'' @ dq
                            @ ''>**Percentage Increase:** ''), Fix2 (fneg percentage),
                       Lit ''%</p>'']])
     @ [StMarkdown [Lit ''</div>'']]"

definition sales_email :: string where
  "sales_email = ''adriennek@intellicomms.co.za''"

definition email_body :: "form \<Rightarrow> float64 \<Rightarrow> float64 \<Rightarrow> float64 \<Rightarrow> fstring" where
  "email_body f cost savings percentage =
     [Lit (nl @ ''A new LekaLink Cloud Cost Quote has been generated for:'' @ nl @ nl
           @ ''Company: '' @ company_name f @ nl
           @ ''Contact: '' @ contact_name f @ '' ('' @ job_title f @ '')'' @ nl
           @ ''Email: '' @ email f @ nl
           @ ''Phone: '' @ phone f @ nl @ nl
           @ ''Current Monthly Cost: R''), Fix2 (current_cost f),
      Lit (nl @ ''LekaLink Estimated Monthly Cost: R''), Fix2 cost, Lit (nl @ nl)]
     @ (if fge savings (Finite 0) then
          [Lit ''Potential Monthly Savings: R'', Fix2 savings, Lit nl,
           Lit ''Potential Percentage Savings: '', Fix2 percentage, Lit (''%'' @ nl)]
        else
          [Lit ''Monthly Cost Increase: R'', Fix2 (fneg savings), Lit nl,
           Lit ''Percentage Cost Increase: '', Fix2 (fneg percentage), Lit (''%'' @ nl)])
     @ [Lit (nl @ ''Please find the detailed quote attached.'' @ nl)]"

definition make_quote_data :: "rate_table \<Rightarrow> form \<Rightarrow> float64 \<Rightarrow> float64 \<Rightarrow> float64 \<Rightarrow> quote_data" where
  "make_quote_data R f cost savings percentage =
     \<lparr>vms = vms f, storage = storage f, bandwidth = bandwidth f,
      current_cost = current_cost f, company_name = company_name f,
      contact_name = contact_name f, job_title = job_title f, email = email f,
      phone = phone f, lekalink_cost = cost, monthly_savings = savings,
      percentage_savings = percentage, vm_rate = VM_RATE R,
      storage_rate_per_tb = STORAGE_RATE_PER_TB R,
      bandwidth_rate_per_mbps = BANDWIDTH_RATE_PER_MBPS R\<rparr>"

definition quote_file_name :: "form \<Rightarrow> string" where
  "quote_file_name f = ''LekaLink_Cloud_Quote_'' @ replace_spaces (company_name f) @ ''.pdf''"

definition download_button :: "form \<Rightarrow> pdf \<Rightarrow> ui_event" where
  "download_button f pdf_output =
     DownloadButton ''Download Quote as PDF'' pdf_output (quote_file_name f) ''application/pdf''"

definition sent_message :: ui_event where
  "sent_message =
     StSuccess [Lit (''Quote generated and sent to the sales team at '' @ sales_email @ ''!'')]"

definition not_sent_message :: ui_event where
  "not_sent_message =
     StError [Lit ''Failed to send the quote to the sales team. Please check the console for errors.'']"

text \<open>
  One press of the button (lines 399-479): everything shown on the page, in order, and the
  exception that ends the script run, if one escapes.
\<close>

definition on_click ::
  "logo_file \<Rightarrow> (email_message \<Rightarrow> py_error option) \<Rightarrow> rate_table \<Rightarrow> form \<Rightarrow>
   ui_event list \<times> py_error option" where
  "on_click logo smtp R f =
     (case validate_inputs (company_name f) (contact_name f) (job_title f) (email f) (phone f) of
        (False, errors) \<Rightarrow> (errors, None)
      | (True, errors) \<Rightarrow>
         (case calculate R f of
            Inl e \<Rightarrow> (errors, Some e)
          | Inr (cost, savings, percentage) \<Rightarrow>
             (let shown = errors @ results_card cost savings percentage;
                  data = make_quote_data R f cost savings percentage;
                  (pdf_msgs, pdf_result) = create_pdf logo data
              in case pdf_result of
                   Inl e \<Rightarrow> (shown @ pdf_msgs, Some e)
                 | Inr pdf_output \<Rightarrow>
                    (let (sent, mail_msgs) =
                           send_email smtp sales_email
                             (''New LekaLink Cloud Cost Quote for '' @ company_name f)
                             (email_body f cost savings percentage)
                             (Some pdf_output) (Some (quote_file_name f))
                     in (shown @ pdf_msgs @ [download_button f pdf_output] @ mail_msgs
                           @ [if sent then sent_message else not_sent_message], None)))))"

section \<open>Properties of the rounding\<close>

lemma rhe_of_int: "round_half_even (of_int n) = n"
  by (simp add: round_half_even_def)

lemma rhe_cases: "round_half_even x = \<lfloor>x\<rfloor> \<or> round_half_even x = \<lfloor>x\<rfloor> + 1"
  by (simp add: round_half_even_def Let_def)

lemma rhe_ge: 
  assumes "of_int n \<le> x" shows "n \<le> round_half_even x"
proof -
  from assms have "n \<le> \<lfloor>x\<rfloor>" by (simp add: le_floor_iff)
  with rhe_cases [of x] show ?thesis by linarith
qed

lemma rhe_le:
  assumes "x \<le> of_int n" shows "round_half_even x \<le> n"
proof (cases "x = of_int \<lfloor>x\<rfloor>")
  case True
  then have "round_half_even x = \<lfloor>x\<rfloor>" by (metis rhe_of_int)
  moreover from assms have "\<lfloor>x\<rfloor> \<le> n" by (simp add: floor_le_iff) 
  ultimately show ?thesis by simp
next
  case False
  then have "of_int \<lfloor>x\<rfloor> < x" using of_int_floor_le [of x] by (metis less_le)
  with assms have "of_int \<lfloor>x\<rfloor> < (of_int n :: rat)" by linarith
  then have "\<lfloor>x\<rfloor> < n" by simp
  with rhe_cases [of x] show ?thesis by linarith
qed

lemma rhe_near:
  assumes "of_int n - 1/2 < x" "x < of_int n + 1/2"
  shows "round_half_even x = n"
proof -
  let ?f = "\<lfloor>x\<rfloor>"
  have fl: "of_int ?f \<le> x" "x < of_int ?f + 1" by linarith+
  from assms fl have "(of_int ?f :: rat) < of_int n + 1" "(of_int n :: rat) - 1 < of_int ?f + 1"
    by linarith+
  then have "(of_int ?f :: rat) < of_int (n + 1)" "(of_int (n - 1) :: rat) < of_int (?f + 1)"
    by simp_all
  then have "?f < n + 1" "n - 1 < ?f + 1" by (simp_all only: of_int_less_iff)
  then consider "?f = n" | "?f = n - 1" by linarith
  then show ?thesis
  proof cases
    case 1
    with assms have "x - of_int ?f < 1/2" by simp
    then show ?thesis using 1 by (simp add: round_half_even_def Let_def)
  next
    case 2
    with assms have "1/2 < x - of_int ?f" by simp
    then show ?thesis using 2 by (simp add: round_half_even_def Let_def)
  qed
qed

lemma rhe_minus: "round_half_even (- x) = - round_half_even x"
proof (cases "x = of_int \<lfloor>x\<rfloor>")
  case True
  then have "round_half_even x = \<lfloor>x\<rfloor>" by (metis rhe_of_int)
  moreover from True have "- x = of_int (- \<lfloor>x\<rfloor>)" by simp
  then have "round_half_even (- x) = - \<lfloor>x\<rfloor>" by (metis rhe_of_int)
  ultimately show ?thesis by simp
next
  case False
  let ?f = "\<lfloor>x\<rfloor>"
  from False have lt: "of_int ?f < x" using of_int_floor_le [of x] by (metis less_le)
  have ub: "x < of_int ?f + 1" by linarith
  have fm: "\<lfloor>- x\<rfloor> = - ?f - 1"
    using lt ub by (intro floor_unique) simp_all
  have dm: "- x - of_int (- ?f - 1) = 1 - (x - of_int ?f)" by simp
  show ?thesis
    unfolding round_half_even_def Let_def fm dm
    by (auto simp: algebra_simps)
qed

lemma p2_pos: "0 < (2::rat) powi k"
  by simp

lemma p2_le_iff: "(2::rat) powi a \<le> 2 powi b \<longleftrightarrow> a \<le> b"
proof
  assume "(2::rat) powi a \<le> 2 powi b"
  show "a \<le> b"
  proof (rule ccontr)
    assume "\<not> a \<le> b"
    then have "(2::rat) powi b < 2 powi a" by (intro power_int_strict_increasing) simp_all
    with \<open>(2::rat) powi a \<le> 2 powi b\<close> show False by simp
  qed
next
  assume "a \<le> b" then show "(2::rat) powi a \<le> 2 powi b"
    by (intro power_int_increasing) simp_all
qed

lemma p2_less_iff: "(2::rat) powi a < 2 powi b \<longleftrightarrow> a < b"
  using p2_le_iff [of b a] by (simp add: not_le [symmetric])

lemma p2_nat: "0 \<le> k \<Longrightarrow> (2::rat) powi k = of_int (2 ^ nat k)"
  by (simp add: power_int_nonneg_exp)

lemma ilog2_bounds:
  assumes "q \<noteq> 0"
  shows "2 powi (ilog2 q) \<le> \<bar>q\<bar>" and "\<bar>q\<bar> < 2 powi (ilog2 q + 1)"
proof -
  have "2 powi (ilog2 q) \<le> \<bar>q\<bar> \<and> \<bar>q\<bar> < 2 powi (ilog2 q + 1)"
  proof (cases "1 \<le> \<bar>q\<bar>")
    case True
    let ?n = "\<lfloor>\<bar>q\<bar>\<rfloor>"
    from True have n1: "1 \<le> ?n" by (simp add: le_floor_iff)
    then have b: "2 ^ nat (bitlen ?n - 1) \<le> ?n" "?n < 2 ^ nat (bitlen ?n)"
      using bitlen_bounds [of ?n] by simp_all
    from n1 have b1: "1 \<le> bitlen ?n"
      using bitlen_eq_zero_iff [of ?n] bitlen_nonneg [of ?n] by linarith
    have il: "ilog2 q = bitlen ?n - 1" using True by (simp add: ilog2_def)
    have "(2::rat) powi (bitlen ?n - 1) = of_int (2 ^ nat (bitlen ?n - 1))"
      using b1 by (intro p2_nat) simp
    also have "\<dots> \<le> of_int ?n" using b(1) by (simp only: of_int_le_iff)
    also have "\<dots> \<le> \<bar>q\<bar>" by (rule of_int_floor_le)
    finally have lo: "2 powi (ilog2 q) \<le> \<bar>q\<bar>" by (simp add: il)
    have "\<bar>q\<bar> < of_int (?n + 1)" by (simp; linarith?)
    also have "\<dots> \<le> of_int (2 ^ nat (bitlen ?n))" using b(2) by (simp only: of_int_le_iff; simp?)
    also have "\<dots> = (2::rat) powi (bitlen ?n)" using b1 by (intro p2_nat [symmetric]) simp
    finally have "\<bar>q\<bar> < 2 powi (ilog2 q + 1)" by (simp add: il)
    with lo show ?thesis by simp
  next
    case False
    let ?y = "1 / \<bar>q\<bar>"
    let ?M = "\<lceil>?y\<rceil> - 1"
    from False assms have q01: "0 < \<bar>q\<bar>" "\<bar>q\<bar> < 1" by simp_all
    then have y1: "1 < ?y" by (simp add: field_simps)
    then have M1: "1 \<le> ?M" by (simp add: less_ceiling_iff; linarith?)
    then have b: "2 ^ nat (bitlen ?M - 1) \<le> ?M" "?M < 2 ^ nat (bitlen ?M)"
      using bitlen_bounds [of ?M] by simp_all
    from M1 have b1: "1 \<le> bitlen ?M"
      using bitlen_eq_zero_iff [of ?M] bitlen_nonneg [of ?M] by linarith
    have il: "ilog2 q = - bitlen ?M" using False by (simp add: ilog2_def)
    have "?y \<le> of_int (?M + 1)" by (simp; linarith?)
    also have "\<dots> \<le> of_int (2 ^ nat (bitlen ?M))" using b(2) by (simp only: of_int_le_iff; simp?)
    also have "\<dots> = (2::rat) powi (bitlen ?M)" using b1 by (intro p2_nat [symmetric]) simp
    finally have "1 / (2 powi (bitlen ?M)) \<le> \<bar>q\<bar>"
      using q01(1) p2_pos [of "bitlen ?M"] by (simp add: field_simps)
    then have lo: "2 powi (ilog2 q) \<le> \<bar>q\<bar>" by (simp add: il power_int_minus_divide)
    have "(2::rat) powi (bitlen ?M - 1) = of_int (2 ^ nat (bitlen ?M - 1))"
      using b1 by (intro p2_nat) simp
    also have "\<dots> \<le> of_int ?M" using b(1) by (simp only: of_int_le_iff)
    also have "\<dots> < ?y" by (simp; linarith?)
    finally have "\<bar>q\<bar> < 1 / (2 powi (bitlen ?M - 1))"
      using q01(1) p2_pos [of "bitlen ?M - 1"] by (simp add: field_simps)
    also have "\<dots> = 2 powi (- (bitlen ?M - 1))" by (simp only: power_int_minus_divide)
    finally have "\<bar>q\<bar> < 2 powi (ilog2 q + 1)" by (simp add: il)
    with lo show ?thesis by simp
  qed
  then show "2 powi (ilog2 q) \<le> \<bar>q\<bar>" and "\<bar>q\<bar> < 2 powi (ilog2 q + 1)" by simp_all
qed

lemma ilog2_unique:
  assumes "2 powi k \<le> \<bar>q\<bar>" "\<bar>q\<bar> < 2 powi (k + 1)"
  shows "ilog2 q = k"
proof -
  from assms(1) p2_pos [of k] have "0 < \<bar>q\<bar>" by linarith
  then have "q \<noteq> 0" by auto
  note b = ilog2_bounds [OF this]
  from b(1) assms(2) have "(2::rat) powi (ilog2 q) < 2 powi (k + 1)" by simp
  moreover from assms(1) b(2) have "(2::rat) powi k < 2 powi (ilog2 q + 1)" by simp
  ultimately show ?thesis by (simp add: p2_less_iff)
qed

lemma ilog2_minus: "ilog2 (- q) = ilog2 q"
  by (simp add: ilog2_def)

lemma ilog2_ge_iff: "q \<noteq> 0 \<Longrightarrow> k \<le> ilog2 q \<longleftrightarrow> 2 powi k \<le> \<bar>q\<bar>"
proof
  assume "q \<noteq> 0" "k \<le> ilog2 q"
  then have "(2::rat) powi k \<le> 2 powi (ilog2 q)" by (simp add: p2_le_iff)
  with ilog2_bounds(1) [OF \<open>q \<noteq> 0\<close>] show "2 powi k \<le> \<bar>q\<bar>" by simp
next
  assume "q \<noteq> 0" "2 powi k \<le> \<bar>q\<bar>"
  with ilog2_bounds(2) [OF \<open>q \<noteq> 0\<close>] have "(2::rat) powi k < 2 powi (ilog2 q + 1)" by simp
  then show "k \<le> ilog2 q" by (simp add: p2_less_iff)
qed

lemma ulp_exp_minus: "ulp_exp (- q) = ulp_exp q"
  by (simp add: ulp_exp_def ilog2_minus)

lemma round_to_grid_minus: "round_to_grid (- q) = - round_to_grid q"
  by (simp add: round_to_grid_def ulp_exp_minus rhe_minus)

lemma round_to_grid_0: "round_to_grid 0 = 0"
  by (simp add: round_to_grid_def rhe_of_int [of 0, simplified])

lemma round64_minus: "round64 (- q) = fneg (round64 q)"
proof -
  have "0 < (2::rat) powi 1024" by (rule p2_pos)
  then show ?thesis
    by (auto simp: round64_def round_to_grid_minus Let_def)
qed

lemma grid_int: 
  assumes "t \<le> e"
  shows "of_int m * (2::rat) powi e = of_int (m * 2 ^ nat (e - t)) * 2 powi t"
proof -
  have "(2::rat) powi e = 2 powi (e - t) * 2 powi t"
    by (simp flip: power_int_add)
  also have "(2::rat) powi (e - t) = of_int (2 ^ nat (e - t))"
    using assms by (intro p2_nat) simp
  finally show ?thesis by simp
qed

lemma round_to_grid_on_grid:
  assumes "q = of_int m * 2 powi e" "ulp_exp q \<le> e"
  shows "round_to_grid q = q"
proof -
  let ?t = "ulp_exp q"
  have q: "q = of_int (m * 2 ^ nat (e - ?t)) * 2 powi ?t"
    using grid_int [OF assms(2), of m] assms(1) by simp
  have "(2::rat) powi ?t \<noteq> 0" using p2_pos [of ?t] by simp
  then have "q / 2 powi ?t = of_int (m * 2 ^ nat (e - ?t))"
    by (subst q) (simp del: of_int_mult of_int_power)
  then have "round_half_even (q / 2 powi ?t) = m * 2 ^ nat (e - ?t)"
    by (simp only: rhe_of_int)
  then show ?thesis
    unfolding round_to_grid_def using q by simp
qed

lemma mantissa_bound:
  assumes "q \<noteq> 0"
  shows "\<bar>round_half_even (q / 2 powi ulp_exp q)\<bar> \<le> 2 ^ 53"
proof -
  let ?e = "ulp_exp q"
  let ?x = "q / 2 powi ?e"
  have e: "ilog2 q + 1 \<le> ?e + 53" by (simp add: ulp_exp_def)
  have "\<bar>?x\<bar> = \<bar>q\<bar> / 2 powi ?e" using p2_pos [of ?e] by simp
  also have "\<dots> < 2 powi (ilog2 q + 1) / 2 powi ?e"
    using ilog2_bounds(2) [OF assms] p2_pos [of ?e] by (simp add: divide_strict_right_mono)
  also have "\<dots> \<le> 2 powi (?e + 53) / 2 powi ?e"
    using e p2_pos [of ?e] by (intro divide_right_mono) (simp_all add: p2_le_iff)
  also have "\<dots> = 2 ^ 53" by (simp add: power_int_add)
  finally have "\<bar>?x\<bar> < 2 ^ 53" .
  then have "?x \<le> 2 ^ 53" "- (2 ^ 53) \<le> ?x" by linarith+
  then have "?x \<le> of_int (2 ^ 53)" "of_int (- (2 ^ 53)) \<le> ?x" by simp_all
  then have "round_half_even ?x \<le> 2 ^ 53" "- (2 ^ 53) \<le> round_half_even ?x"
    by (simp_all only: rhe_le rhe_ge)
  then show ?thesis by simp
qed

lemma round_to_grid_idem: "round_to_grid (round_to_grid q) = round_to_grid q"
proof (cases "round_to_grid q = 0")
  case True
  then show ?thesis by (simp add: round_to_grid_0)
next
  case False
  let ?e = "ulp_exp q"
  let ?m = "round_half_even (q / 2 powi ?e)"
  let ?r = "round_to_grid q"
  have r: "?r = of_int ?m * 2 powi ?e" by (simp add: round_to_grid_def)
  from False have q0: "q \<noteq> 0" by (auto simp: round_to_grid_0)
  have mb: "\<bar>?m\<bar> \<le> 2 ^ 53" by (rule mantissa_bound [OF q0])
  have e_lo: "- 1074 \<le> ?e" by (simp add: ulp_exp_def)
  have absr: "\<bar>?r\<bar> = of_int \<bar>?m\<bar> * 2 powi ?e"
    using p2_pos [of ?e] by (simp add: r abs_mult)
  show ?thesis
  proof (cases "\<bar>?m\<bar> = 2 ^ 53")
    case True
    then have "\<bar>?r\<bar> = 2 powi (?e + 53)" by (simp add: absr power_int_add)
    then have "ilog2 ?r = ?e + 53"
      by (intro ilog2_unique) (simp_all add: p2_less_iff)
    then have ue: "ulp_exp ?r = ?e + 1" using e_lo by (simp add: ulp_exp_def)
    from True have "even ?m" by (metis even_abs_add_iff even_add even_numeral even_power zero_less_numeral)
    then obtain j where j: "?m = 2 * j" by (auto elim: evenE)
    have "?r = of_int j * 2 powi (?e + 1)"
      by (simp only: r j) (simp add: power_int_add)
    then show ?thesis by (rule round_to_grid_on_grid) (simp add: ue)
  next
    case False
    with mb have "\<bar>?m\<bar> < 2 ^ 53" by simp
    then have "(of_int \<bar>?m\<bar> :: rat) < of_int (2 ^ 53)" by (simp only: of_int_less_iff)
    then have "\<bar>?r\<bar> < 2 ^ 53 * 2 powi ?e"
      using p2_pos [of ?e] by (simp add: absr)
    also have "\<dots> = 2 powi (?e + 53)" by (simp add: power_int_add)
    finally have "\<not> (2 powi (?e + 53) \<le> \<bar>?r\<bar>)" by simp
    then have "\<not> (?e + 53 \<le> ilog2 ?r)"
      using ilog2_ge_iff [OF \<open>?r \<noteq> 0\<close>, of "?e + 53"] by simp
    then have "ulp_exp ?r \<le> ?e" using e_lo by (simp add: ulp_exp_def)
    with r show ?thesis by (rule round_to_grid_on_grid)
  qed
qed

lemma round64_idem: "round64 q = Finite r \<Longrightarrow> round64 r = Finite r"
  by (auto simp: round64_def Let_def round_to_grid_idem split: if_splits)

lemma is_float64_round64: "is_float64 (round64 q)"
  by (cases "round64 q") (simp_all add: round64_idem)

lemma round_to_grid_lower:
  assumes "2 powi k \<le> q" "- 1074 \<le> k"
  shows "2 powi k \<le> round_to_grid q"
proof -
  let ?e = "ulp_exp q"
  let ?i = "ilog2 q"
  from assms(1) p2_pos [of k] have qpos: "0 < q" by linarith
  then have q0: "q \<noteq> 0" by simp
  from assms(1) qpos have ki: "k \<le> ?i" by (simp add: ilog2_ge_iff [OF q0])
  with assms(2) have ei: "?e \<le> ?i" by (simp add: ulp_exp_def)
  have "(2::rat) powi ?i = 2 powi (?i - ?e) * 2 powi ?e" by (simp flip: power_int_add)
  also have "(2::rat) powi (?i - ?e) = of_int (2 ^ nat (?i - ?e))"
    using ei by (intro p2_nat) simp
  finally have pi: "(2::rat) powi ?i = of_int (2 ^ nat (?i - ?e)) * 2 powi ?e" .
  have "2 powi ?i \<le> q" using ilog2_bounds(1) [OF q0] qpos by simp
  then have "of_int (2 ^ nat (?i - ?e)) \<le> q / 2 powi ?e"
    using p2_pos [of ?e] by (simp only: pi pos_le_divide_eq)
  then have "2 ^ nat (?i - ?e) \<le> round_half_even (q / 2 powi ?e)" by (rule rhe_ge)
  then have "(of_int (2 ^ nat (?i - ?e)) :: rat) \<le> of_int (round_half_even (q / 2 powi ?e))"
    by (simp only: of_int_le_iff)
  then have "2 powi ?i \<le> round_to_grid q"
    unfolding round_to_grid_def pi using p2_pos [of ?e] by (simp only: mult_le_cancel_right_pos)
  moreover have "(2::rat) powi k \<le> 2 powi ?i" using ki by (simp add: p2_le_iff)
  ultimately show ?thesis by linarith
qed

lemma fsign_fneg: "fsign (fneg x) = map_option uminus (fsign x)"
  by (cases x) simp_all

lemma fsign_round64_pos:
  assumes "2 powi (- 1074) \<le> q"
  shows "fsign (round64 q) = Some 1"
proof -
  from round_to_grid_lower [OF assms] have "2 powi (- 1074) \<le> round_to_grid q" by simp
  with p2_pos [of "- 1074"] have "0 < round_to_grid q" by linarith
  moreover from assms p2_pos [of "- 1074"] have "q \<noteq> 0" by auto
  ultimately show ?thesis
    using p2_pos [of 1024] by (auto simp: round64_def Let_def)
qed

lemma fsign_round64:
  assumes "2 powi (- 1074) \<le> \<bar>q\<bar>"
  shows "fsign (round64 q) = Some (sgn q)"
proof (cases "0 \<le> q")
  case True
  with assms have "2 powi (- 1074) \<le> q" by simp
  moreover from this p2_pos [of "- 1074"] have "0 < q" by linarith
  ultimately show ?thesis by (simp add: fsign_round64_pos)
next
  case False
  with assms have "2 powi (- 1074) \<le> - q" by simp
  then have "fsign (round64 (- q)) = Some 1" by (rule fsign_round64_pos)
  then show ?thesis using False by (simp add: round64_minus fsign_fneg)
qed

lemma float_on_grid:
  assumes "is_float64 (Finite x)" "t \<le> ulp_exp x"
  shows "\<exists>a. x = of_int a * 2 powi t"
proof (cases "x = 0")
  case True
  then have "x = of_int 0 * 2 powi t" by simp
  then show ?thesis ..
next
  case False
  with assms(1) have "round_to_grid x = x"
    by (auto simp: round64_def Let_def split: if_splits)
  then have "x = of_int (round_half_even (x / 2 powi ulp_exp x)) * 2 powi ulp_exp x"
    by (simp add: round_to_grid_def)
  with grid_int [OF assms(2)] show ?thesis by metis
qed

lemma grid_diff:
  assumes "(x::rat) = of_int a * 2 powi t" "(y::rat) = of_int b * 2 powi t" "x \<noteq> y"
  shows "2 powi t \<le> \<bar>x - y\<bar>"
proof -
  from assms have "a \<noteq> b" by auto
  then have "1 \<le> \<bar>a - b\<bar>" by simp
  then have "(1::rat) \<le> of_int \<bar>a - b\<bar>" by (simp only: of_int_1_le_iff)
  then have "1 * 2 powi t \<le> of_int \<bar>a - b\<bar> * (2::rat) powi t"
    using p2_pos [of t] by (simp only: mult_le_cancel_right_pos)
  also have "\<dots> = \<bar>x - y\<bar>"
    using p2_pos [of t] by (simp add: assms(1,2) abs_mult flip: left_diff_distrib)
  finally show ?thesis by simp
qed

lemma float_min_magnitude:
  assumes "is_float64 (Finite x)" "x \<noteq> 0"
  shows "2 powi (- 1074) \<le> \<bar>x\<bar>"
proof -
  have "- 1074 \<le> ulp_exp x" by (simp add: ulp_exp_def)
  from float_on_grid [OF assms(1) this] obtain a where "x = of_int a * 2 powi (- 1074)" ..
  moreover have "(0::rat) = of_int 0 * 2 powi (- 1074)" by simp
  ultimately show ?thesis using grid_diff [of x a "- 1074" 0 0] assms(2) by simp
qed

lemma float_diff_lower:
  assumes c: "is_float64 (Finite c)" and e: "is_float64 (Finite e)"
    and cpos: "0 < c" and ne: "c \<noteq> e"
  shows "2 powi (max (ilog2 c - 1073) (- 1074)) \<le> \<bar>c - e\<bar>"
proof -
  let ?k = "ilog2 c"
  from cpos have c0: "c \<noteq> 0" by simp
  have lo: "- 1074 \<le> ulp_exp c" "- 1074 \<le> ulp_exp e" by (simp_all add: ulp_exp_def)
  obtain a b where ab: "c = of_int a * 2 powi (- 1074)" "e = of_int b * 2 powi (- 1074)"
    using float_on_grid [OF c lo(1)] float_on_grid [OF e lo(2)] by blast
  have small: "2 powi (- 1074) \<le> \<bar>c - e\<bar>" using grid_diff [OF ab ne] .
  show ?thesis
  proof (cases "2 powi (?k - 1073) \<le> \<bar>c - e\<bar>")
    case True
    with small show ?thesis by (simp add: max_def)
  next
    case False
    then have d: "\<bar>c - e\<bar> < 2 powi (?k - 1073)" by simp
    have "(2::rat) powi (?k - 1073) \<le> 2 powi (?k - 1)" by (simp add: p2_le_iff)
    with d have d': "\<bar>c - e\<bar> < 2 powi (?k - 1)" by linarith
    have "(2::rat) powi ?k = 2 powi (?k - 1) * 2" 
      using power_int_add [of "2::rat" "?k - 1" 1] by simp
    moreover have "2 powi ?k \<le> c" using ilog2_bounds(1) [OF c0] cpos by simp
    ultimately have elo: "2 powi (?k - 1) \<le> e" using d' by linarith
    with p2_pos [of "?k - 1"] have epos: "0 < e" by linarith
    then have "?k - 1 \<le> ilog2 e" using elo by (simp add: ilog2_ge_iff)
    then have t: "?k - 53 \<le> ulp_exp c" "?k - 53 \<le> ulp_exp e" by (simp_all add: ulp_exp_def)
    obtain a' b' where ab': "c = of_int a' * 2 powi (?k - 53)" "e = of_int b' * 2 powi (?k - 53)"
      using float_on_grid [OF c t(1)] float_on_grid [OF e t(2)] by blast
    have "2 powi (?k - 53) \<le> \<bar>c - e\<bar>" using grid_diff [OF ab' ne] .
    moreover have "(2::rat) powi (?k - 1073) \<le> 2 powi (?k - 53)" by (simp add: p2_le_iff)
    ultimately show ?thesis using d by linarith
  qed
qed

lemma round64_exact:
  assumes q: "q = of_int m * 2 powi e" and m: "\<bar>m\<bar> < 2 ^ 53" and e: "- 1074 \<le> e" "e \<le> 971"
  shows "round64 q = Finite q"
proof (cases "q = 0")
  case True
  then show ?thesis by (simp add: round64_def)
next
  case False
  from m have "(of_int \<bar>m\<bar> :: rat) < of_int (2 ^ 53)" by (simp only: of_int_less_iff)
  then have "\<bar>q\<bar> < 2 ^ 53 * 2 powi e"
    using p2_pos [of e] by (simp add: q abs_mult)
  also have "\<dots> = 2 powi (e + 53)" by (simp add: power_int_add)
  finally have lt: "\<bar>q\<bar> < 2 powi (e + 53)" .
  then have "\<not> (2 powi (e + 53) \<le> \<bar>q\<bar>)" by simp
  then have "\<not> (e + 53 \<le> ilog2 q)" using ilog2_ge_iff [OF False, of "e + 53"] by simp
  then have "ulp_exp q \<le> e" using e(1) by (simp add: ulp_exp_def)
  with q have r: "round_to_grid q = q" by (rule round_to_grid_on_grid)
  have "(2::rat) powi (e + 53) \<le> 2 powi 1024" using e(2) by (simp only: p2_le_iff)
  with lt have "\<bar>q\<bar> < 2 powi 1024" by linarith
  then have "\<not> 2 powi 1024 \<le> q" "\<not> q \<le> - (2 powi 1024)" by linarith+
  then show ?thesis using False by (simp add: round64_def r)
qed

lemma round64_of_int:
  assumes "\<bar>i\<bar> < 2 ^ 53"
  shows "round64 (of_int i) = Finite (of_int i)"
  by (rule round64_exact [where m = i and e = 0]) (use assms in simp_all)

subsection \<open>Evaluating the rounding on numerals\<close>


lemma round64_eval_gen:
  assumes k: "2 powi k \<le> \<bar>q\<bar>" "\<bar>q\<bar> < 2 powi (k + 1)" and kr: "- 1022 \<le> k" "k \<le> 1022"
    and rn: "round_half_even (q / 2 powi (k - 52)) = n"
  shows "round64 q = Finite (of_int n * 2 powi (k - 52))"
proof -
  from k(1) p2_pos [of k] have "0 < \<bar>q\<bar>" by linarith
  then have q0: "q \<noteq> 0" by auto
  have il: "ilog2 q = k" using k by (rule ilog2_unique)
  then have ue: "ulp_exp q = k - 52" using kr(1) by (simp add: ulp_exp_def)
  have r: "round_to_grid q = of_int n * 2 powi (k - 52)"
    by (simp add: round_to_grid_def ue rn)
  have "\<bar>n\<bar> \<le> 2 ^ 53" using mantissa_bound [OF q0] by (simp add: ue rn)
  then have "(of_int \<bar>n\<bar> :: rat) \<le> of_int (2 ^ 53)" by (simp only: of_int_le_iff)
  then have "\<bar>of_int n * 2 powi (k - 52)\<bar> \<le> 2 ^ 53 * (2::rat) powi (k - 52)"
    using p2_pos [of "k - 52"] by (simp add: abs_mult)
  also have "\<dots> = 2 powi (k + 1)"
    using power_int_add [of "2::rat" "k - 52" 53] by (simp add: ac_simps)
  also have "\<dots> < 2 powi 1024" using kr(2) by (simp only: p2_less_iff)
  finally have "\<bar>round_to_grid q\<bar> < 2 powi 1024" by (simp only: r)
  then have "\<not> 2 powi 1024 \<le> round_to_grid q" "\<not> round_to_grid q \<le> - (2 powi 1024)"
    by linarith+
  then show ?thesis using q0 by (simp add: round64_def Let_def r)
qed

lemma round64_eval:
  assumes "2 powi k \<le> \<bar>q\<bar>" "\<bar>q\<bar> < 2 powi (k + 1)" "- 1022 \<le> k" "k \<le> 1022"
    and "of_int n - 1/2 < q / 2 powi (k - 52)" "q / 2 powi (k - 52) < of_int n + 1/2"
  shows "round64 q = Finite (of_int n * 2 powi (k - 52))"
  using assms(1-4) rhe_near [OF assms(5,6)] by (rule round64_eval_gen)


lemma default_vm: "DEFAULT_VM_RATE = Finite (7602903003745485 / 8796093022208)"
  unfolding DEFAULT_VM_RATE_def
  using round64_eval [of 9 "86435 / 100" 7602903003745485] by simp

lemma default_storage: "DEFAULT_STORAGE_RATE_PER_TB = Finite (7656119366529843 / 8796093022208)"
  unfolding DEFAULT_STORAGE_RATE_PER_TB_def
  using round64_eval [of 9 "87040 / 100" 7656119366529843] by simp

lemma default_bandwidth: "DEFAULT_BANDWIDTH_RATE_PER_MBPS = Finite (15 / 2)"
  unfolding DEFAULT_BANDWIDTH_RATE_PER_MBPS_def
  using round64_exact [of "750 / 100" 15 "- 1"] by simp


lemma float_of_int_exact: "\<bar>i\<bar> < 2 ^ 53 \<Longrightarrow> float_of_int i = Finite (of_int i)"
  by (simp add: float_of_int_def round64_of_int)

lemma float_of_int_0: "float_of_int 0 = Finite 0"
  by (simp add: float_of_int_def round64_def)

lemma float_of_int_100: "float_of_int 100 = Finite 100"
  using float_of_int_exact [of 100] by simp


lemma is_float64_fadd: "is_float64 (fadd x y)"
  by (cases x; cases y) (simp_all add: is_float64_round64)

lemma is_float64_fmul: "is_float64 (fmul x y)"
  by (cases x; cases y) (simp_all add: is_float64_round64 split: option.splits)

lemma fsub_zero: "is_float64 x \<Longrightarrow> fsub (Finite 0) x = fneg x"
  by (cases x) (simp_all add: fsub_def round64_minus)

lemma is_float64_cost: "is_float64 (calc_lekalink_cost R f)"
  by (simp add: calc_lekalink_cost_def is_float64_fadd)

subsection \<open>The example of the specification, step by step\<close>

lemma ex_vm: "fmul (float_of_int 2) DEFAULT_VM_RATE = Finite (7602903003745485 / 4398046511104)"
  using round64_exact [of "2 * (7602903003745485 / 8796093022208)" 7602903003745485 "- 42"]
    float_of_int_exact [of 2]
  by (simp add: default_vm)

lemma ex_storage:
  "fmul (Finite 1) DEFAULT_STORAGE_RATE_PER_TB = Finite (7656119366529843 / 8796093022208)"
  using round64_exact [of "7656119366529843 / 8796093022208" 7656119366529843 "- 43"]
  by (simp add: default_storage)

lemma ex_bandwidth: "fmul (Finite 10) DEFAULT_BANDWIDTH_RATE_PER_MBPS = Finite 75"
  using round64_of_int [of 75] by (simp add: default_bandwidth)

lemma ex_sum1:
  "fadd (Finite (7602903003745485 / 4398046511104)) (Finite (7656119366529843 / 8796093022208))
   = Finite (5715481343505203 / 2199023255552)"
  using round64_eval [of 11 "7602903003745485 / 4398046511104 + 7656119366529843 / 8796093022208"
      5715481343505203]
  by simp

lemma ex_sum2:
  "fadd (Finite (5715481343505203 / 2199023255552)) (Finite 75)
   = Finite (5880408087671603 / 2199023255552)"
  using round64_eval [of 11 "5715481343505203 / 2199023255552 + 75" 5880408087671603]
  by simp



lemma ex_savings:
  "fsub (Finite 3000) (Finite (5880408087671603 / 2199023255552))
   = Finite (716661678984397 / 2199023255552)"
  using round64_exact [of "3000 - 5880408087671603 / 2199023255552" 716661678984397 "- 41"]
  by (simp add: fsub_def)

lemma ex_quotient:
  "fdiv (Finite (716661678984397 / 2199023255552)) (Finite 3000)
   = Inr (Finite (489241039520015 / 4503599627370496))"
  using round64_eval [of "- 4" "716661678984397 / 2199023255552 / 3000" 7827856632320240]
  by simp


lemma ex_cost:
  "calc_lekalink_cost initial_rates
     \<lparr>vms = 2, storage = Finite 1, bandwidth = Finite 10, current_cost = Finite 3000,
      company_name = a, contact_name = b, job_title = c, email = d, phone = e\<rparr>
   = Finite (5880408087671603 / 2199023255552)"
  by (simp add: calc_lekalink_cost_def initial_rates_def ex_vm ex_storage ex_bandwidth
      ex_sum1 ex_sum2 del: fadd.simps fmul.simps)

section \<open>Properties of the cost calculation\<close>

lemma fdiv_Inl_iff: "fdiv x y = Inl e \<longleftrightarrow> y = Finite 0 \<and> e = ZeroDivisionError"
  by (cases x; cases y) auto

lemma percentage_no_error: "\<exists>p. calc_percentage_savings R f = Inr p"
proof (cases "fdiv (calc_monthly_savings R f) (current_cost f)")
  case (Inl e)
  then have "current_cost f = Finite 0" by (simp add: fdiv_Inl_iff)
  then show ?thesis by (simp add: calc_percentage_savings_def fne_def float_of_int_0)
next
  case (Inr d)
  then show ?thesis by (simp add: calc_percentage_savings_def)
qed


lemma ex_monthly_savings:
  "calc_monthly_savings initial_rates
     \<lparr>vms = 2, storage = Finite 1, bandwidth = Finite 10, current_cost = Finite 3000,
      company_name = a, contact_name = b, job_title = c, email = d, phone = e\<rparr>
   = Finite (716661678984397 / 2199023255552)"
  by (simp add: calc_monthly_savings_def ex_cost ex_savings)



lemma fsub_finite:
  "fsub (Finite c) (Finite e) = round64 (c - e)"
  by (simp add: fsub_def)

lemma fsign_savings:
  assumes c: "is_float64 (Finite c)" and e: "is_float64 (Finite e)"
  shows "fsign (fsub (Finite c) (Finite e)) = Some (sgn (c - e))"
proof (cases "c = e")
  case True
  then show ?thesis by (simp add: fsub_finite round64_def)
next
  case False
  have lo: "- 1074 \<le> ulp_exp c" "- 1074 \<le> ulp_exp e" by (simp_all add: ulp_exp_def)
  obtain a b where ab: "c = of_int a * 2 powi (- 1074)" "e = of_int b * 2 powi (- 1074)"
    using float_on_grid [OF c lo(1)] float_on_grid [OF e lo(2)] by blast
  have "2 powi (- 1074) \<le> \<bar>c - e\<bar>" using grid_diff [OF ab False] .
  then show ?thesis unfolding fsub_finite by (rule fsign_round64)
qed

lemma savings_magnitude:
  assumes c: "is_float64 (Finite c)" and e: "is_float64 (Finite e)" and cpos: "0 < c"
    and m: "round64 (c - e) = Finite m"
  shows "m = 0 \<or> 2 powi (- 1074) * c \<le> \<bar>m\<bar>"
proof (cases "c = e")
  case True
  with m show ?thesis by (simp add: round64_def)
next
  case False
  let ?k = "ilog2 c"
  let ?j = "max (?k - 1073) (- 1074)"
  let ?d = "c - e"
  from False have d0: "?d \<noteq> 0" by simp
  from cpos have c0: "c \<noteq> 0" by simp
  have dl: "2 powi ?j \<le> \<bar>?d\<bar>" using float_diff_lower [OF c e cpos False] .
  from m d0 have mr: "m = round_to_grid ?d"
    by (auto simp: round64_def Let_def split: if_splits)
  have jl: "- 1074 \<le> ?j" by simp
  have ml: "2 powi ?j \<le> \<bar>m\<bar>"
  proof (cases "0 \<le> ?d")
    case True
    with dl have "2 powi ?j \<le> ?d" by simp
    from round_to_grid_lower [OF this jl] p2_pos [of ?j] show ?thesis
      unfolding mr by linarith
  next
    case False
    with dl have "2 powi ?j \<le> - ?d" by simp
    from round_to_grid_lower [OF this jl] p2_pos [of ?j] show ?thesis
      unfolding mr round_to_grid_minus by linarith
  qed
  have "c < 2 powi (?k + 1)" using ilog2_bounds(2) [OF c0] cpos by simp
  then have "2 powi (- 1074) * c < 2 powi (- 1074) * 2 powi (?k + 1)"
    using p2_pos [of "- 1074"] by (simp only: mult_less_cancel_left_pos)
  also have "\<dots> = 2 powi (?k - 1073)"
    using power_int_add [of "2::rat" "- 1074" "?k + 1"] by (simp add: ac_simps)
  also have "\<dots> \<le> 2 powi ?j" by (simp only: p2_le_iff; simp?)
  finally show ?thesis using ml by linarith
qed

lemma fsign_fmul_100:
  assumes "is_float64 x"
  shows "fsign (fmul x (Finite 100)) = fsign x"
proof (cases x)
  case (Finite q)
  show ?thesis
  proof (cases "q = 0")
    case True
    then show ?thesis by (simp add: Finite round64_def)
  next
    case False
    from assms have "2 powi (- 1074) \<le> \<bar>q\<bar>" 
      unfolding Finite using False by (rule float_min_magnitude)
    then have "2 powi (- 1074) \<le> \<bar>q * 100\<bar>" by (simp add: abs_mult)
    then have "fsign (round64 (q * 100)) = Some (sgn (q * 100))" by (rule fsign_round64)
    then show ?thesis by (simp add: Finite sgn_mult)
  qed
qed simp_all

lemma fsign_fdiv_pos:
  assumes cpos: "0 < c" and m: "m = 0 \<or> 2 powi (- 1074) * c \<le> \<bar>m\<bar>"
  shows "fsign (round64 (m / c)) = Some (sgn m)"
proof (cases "m = 0")
  case True
  then show ?thesis by (simp add: round64_def)
next
  case False
  with m have "2 powi (- 1074) * c \<le> \<bar>m\<bar>" by simp
  then have "2 powi (- 1074) \<le> \<bar>m\<bar> / c" using cpos by (simp add: pos_le_divide_eq)
  then have "2 powi (- 1074) \<le> \<bar>m / c\<bar>" using cpos by simp
  then have "fsign (round64 (m / c)) = Some (sgn (m / c))" by (rule fsign_round64)
  then show ?thesis using cpos by simp
qed

lemma percentage_sign:
  assumes c: "is_float64 (Finite c)" and cpos: "0 < c" and x: "is_float64 x"
  shows "\<exists>d. fdiv (fsub (Finite c) x) (Finite c) = Inr d
           \<and> fsign (fmul d (Finite 100)) = fsign (fsub (Finite c) x)"
proof (cases x)
  case (Finite e)
  with x have e: "is_float64 (Finite e)" by simp
  let ?s = "round64 (c - e)"
  have s: "fsub (Finite c) x = ?s" by (simp add: Finite fsub_finite)
  show ?thesis
  proof (cases ?s)
    case (Finite m)
    from savings_magnitude [OF c e cpos Finite] have "fsign (round64 (m / c)) = Some (sgn m)"
      by (rule fsign_fdiv_pos [OF cpos])
    moreover have "is_float64 (round64 (m / c))" by (rule is_float64_round64)
    ultimately show ?thesis
      using cpos by (simp add: s Finite fsign_fmul_100 del: fmul.simps)
  qed (use cpos in \<open>simp_all add: s\<close>)
qed (use cpos in \<open>simp_all add: fsub_def\<close>)

lemma percentage_zero_cost:
  "current_cost f = Finite 0 \<Longrightarrow> calc_percentage_savings R f = Inr (Finite 0)"
  by (simp add: calc_percentage_savings_def fne_def float_of_int_0)

lemma percentage_nonzero_cost:
  assumes "current_cost f \<noteq> Finite 0"
  shows "\<exists>d. fdiv (calc_monthly_savings R f) (current_cost f) = Inr d
           \<and> calc_percentage_savings R f = Inr (fmul d (Finite 100))"
proof (cases "fdiv (calc_monthly_savings R f) (current_cost f)")
  case (Inl e)
  with assms show ?thesis by (simp add: fdiv_Inl_iff)
next
  case (Inr d)
  with assms show ?thesis
    by (simp add: calc_percentage_savings_def fne_def float_of_int_0 float_of_int_100)
qed

lemma savings_zero_cost:
  "current_cost f = Finite 0 \<Longrightarrow> calc_monthly_savings R f = fneg (calc_lekalink_cost R f)"
  by (simp add: calc_monthly_savings_def fsub_zero is_float64_cost)

lemma ex1_cost:
  "calc_lekalink_cost initial_rates
     \<lparr>vms = 1, storage = Finite 0, bandwidth = Finite 0, current_cost = Finite 0,
      company_name = a, contact_name = b, job_title = c, email = d, phone = e\<rparr>
   = Finite (7602903003745485 / 8796093022208)"
proof -
  have vm: "fmul (float_of_int 1) DEFAULT_VM_RATE = Finite (7602903003745485 / 8796093022208)"
    using round64_exact [of "7602903003745485 / 8796093022208" 7602903003745485 "- 43"]
      float_of_int_exact [of 1]
    by (simp add: default_vm)
  have z: "fmul (Finite 0) x = Finite 0" if "x = Finite q" for x q
    using that by (simp add: round64_def)
  have s: "fadd (Finite (7602903003745485 / 8796093022208)) (Finite 0)
      = Finite (7602903003745485 / 8796093022208)"
    using round64_exact [of "7602903003745485 / 8796093022208" 7602903003745485 "- 43"]
    by simp
  show ?thesis
    by (simp add: calc_lekalink_cost_def initial_rates_def vm z [OF default_storage]
        z [OF default_bandwidth] s del: fadd.simps fmul.simps)
qed

lemma ex1_calculate:
  "calculate initial_rates
     \<lparr>vms = 1, storage = Finite 0, bandwidth = Finite 0, current_cost = Finite 0,
      company_name = a, contact_name = b, job_title = c, email = d, phone = e\<rparr>
   = Inr (Finite (7602903003745485 / 8796093022208),
          Finite (- (7602903003745485 / 8796093022208)),
          Finite 0)"
  by (simp add: calculate_def percentage_zero_cost savings_zero_cost ex1_cost)

lemma validate_ok_iff:
  "fst (validate_inputs a b c d e) \<longleftrightarrow> a \<noteq> [] \<and> b \<noteq> [] \<and> c \<noteq> [] \<and> d \<noteq> [] \<and> e \<noteq> []"
  by (simp add: validate_inputs_def)

lemma validate_fails:
  "\<not> fst (validate_inputs a b c d e) \<Longrightarrow>
   validate_inputs a b c d e =
     (False, [StError [Lit ((if a = [] then ''Company Name''
                             else if b = [] then ''Contact Name''
                             else if c = [] then ''Job Title''
                             else if d = [] then ''Email'' else ''Phone Number'')
                            @ '' is required.'')]])"
  by (simp add: validate_inputs_def split: if_splits)

lemma on_click_blocked:
  "validate_inputs (company_name f) (contact_name f) (job_title f) (email f) (phone f)
     = (False, errs) \<Longrightarrow> on_click logo smtp R f = (errs, None)"
  by (simp add: on_click_def)










lemma create_pdf_unreadable:
  "create_pdf LogoUnreadable data = ([logo_error OtherException], Inl UnboundLocalError)"
  by (simp add: create_pdf_def draw_logo_def logo_exists_def letter_def)

lemma create_pdf_zero_width:
  "create_pdf (LogoImage 0 h) data = ([logo_error ZeroDivisionError], Inl UnboundLocalError)"
  by (simp add: create_pdf_def draw_logo_def logo_exists_def letter_def int_truediv_def)

lemma create_pdf_absent:
  "create_pdf LogoAbsent data =
     ([StWarning [Lit (''LekaLink logo not found at '' @ LEKALINK_LOGO_PATH
                       @ ''. Skipping logo in PDF.'')]],
      Inr (page_body data (down (Finite 792) (15 / 10))))"
  by (simp add: create_pdf_def draw_logo_def logo_exists_def letter_def)







lemma send_email_delivers:
  assumes "\<forall>m. smtp m = None"
  shows "send_email smtp recipient subject body attachment_data attachment_filename = (True, [])"
  using assms by (simp add: send_email_def Let_def)




section \<open>The claims\<close>

subsection \<open>C1: the cost formula and the example of the specification\<close>



subsection \<open>C2: the percentage when the current cost is zero\<close>

text \<open>
  C2. Computing the percentage never raises, for any input: the division runs only when
  the current monthly cost differs from zero. When the current monthly cost is zero the
  percentage of savings is 0, whatever the estimated cost, and the monthly savings are
  the estimated cost negated. When the current monthly cost is not zero the percentage is
  the monthly savings divided by the current monthly cost, times 100.
\<close>

theorem C2_zero_current_cost:
  "(\<exists>p. calc_percentage_savings R f = Inr p)
   \<and> (current_cost f = Finite 0 \<longrightarrow>
        calc_percentage_savings R f = Inr (Finite 0)
        \<and> calc_monthly_savings R f = fneg (calc_lekalink_cost R f))
   \<and> (current_cost f \<noteq> Finite 0 \<longrightarrow>
        (\<exists>d. fdiv (calc_monthly_savings R f) (current_cost f) = Inr d
           \<and> calc_percentage_savings R f = Inr (fmul d (Finite 100))))"
  using percentage_no_error [of R f] percentage_zero_cost [of f R] savings_zero_cost [of f R]
    percentage_nonzero_cost [of f R]
  by blast

text \<open>
  C2 at two forms that share the default rates: a current cost of zero, and the example of
  the specification.
\<close>

theorem C2_witness:
  "calc_percentage_savings initial_rates
     \<lparr>vms = 1, storage = Finite 0, bandwidth = Finite 0, current_cost = Finite 0,
      company_name = ''Acme'', contact_name = ''Ann'', job_title = ''CTO'',
      email = ''ann@acme.example'', phone = ''555''\<rparr> = Inr (Finite 0)
   \<and> calc_monthly_savings initial_rates
     \<lparr>vms = 1, storage = Finite 0, bandwidth = Finite 0, current_cost = Finite 0,
      company_name = ''Acme'', contact_name = ''Ann'', job_title = ''CTO'',
      email = ''ann@acme.example'', phone = ''555''\<rparr>
     = Finite (- (7602903003745485 / 8796093022208))
   \<and> calc_percentage_savings initial_rates
     \<lparr>vms = 2, storage = Finite 1, bandwidth = Finite 10, current_cost = Finite 3000,
      company_name = ''Acme'', contact_name = ''Ann'', job_title = ''CTO'',
      email = ''ann@acme.example'', phone = ''555''\<rparr>
     = Inr (fmul (Finite (489241039520015 / 4503599627370496)) (Finite 100))"
proof -
  let ?f0 = "\<lparr>vms = 1, storage = Finite 0, bandwidth = Finite 0, current_cost = Finite 0,
      company_name = ''Acme'', contact_name = ''Ann'', job_title = ''CTO'',
      email = ''ann@acme.example'', phone = ''555''\<rparr>"
  let ?f1 = "\<lparr>vms = 2, storage = Finite 1, bandwidth = Finite 10, current_cost = Finite 3000,
      company_name = ''Acme'', contact_name = ''Ann'', job_title = ''CTO'',
      email = ''ann@acme.example'', phone = ''555''\<rparr>"
  have z: "current_cost ?f0 = Finite 0" by simp
  have n: "current_cost ?f1 \<noteq> Finite 0" by simp
  from C2_zero_current_cost [of initial_rates ?f0] z
  have 0: "calc_percentage_savings initial_rates ?f0 = Inr (Finite 0)"
    "calc_monthly_savings initial_rates ?f0 = fneg (calc_lekalink_cost initial_rates ?f0)"
    by blast+
  from C2_zero_current_cost [of initial_rates ?f1] n
  obtain d where d: "fdiv (calc_monthly_savings initial_rates ?f1) (current_cost ?f1) = Inr d"
    "calc_percentage_savings initial_rates ?f1 = Inr (fmul d (Finite 100))"
    by blast
  from d(1) have "d = Finite (489241039520015 / 4503599627370496)"
    by (simp add: ex_monthly_savings ex_quotient del: fdiv.simps)
  with 0 d(2) show ?thesis by (simp add: ex1_cost del: fmul.simps)
qed

subsection \<open>C3: the signs of the savings and of the percentage\<close>

text \<open>
  C3, as amended. For every form whose current monthly cost is a float, and every rate
  table: when the current cost and the estimated cost are finite, the sign of the monthly
  savings is the sign of the exact difference of the two; when the current monthly cost is
  positive, the percentage of savings has the sign of the monthly savings (NaN where they
  are NaN); and when the current monthly cost is zero the percentage is 0, whatever the
  sign of the monthly savings.
\<close>

theorem C3_signs:
  assumes "is_float64 (current_cost f)"
  shows "(\<forall>c e. current_cost f = Finite c \<and> calc_lekalink_cost R f = Finite e \<longrightarrow>
            fsign (calc_monthly_savings R f) = Some (sgn (c - e)))
     \<and> (\<forall>c. current_cost f = Finite c \<and> 0 < c \<longrightarrow>
            (\<exists>p. calc_percentage_savings R f = Inr p
               \<and> fsign p = fsign (calc_monthly_savings R f)))
     \<and> (current_cost f = Finite 0 \<longrightarrow> calc_percentage_savings R f = Inr (Finite 0))"
proof (intro conjI allI impI)
  fix c e
  assume "current_cost f = Finite c \<and> calc_lekalink_cost R f = Finite e"
  then have ce: "current_cost f = Finite c" "calc_lekalink_cost R f = Finite e" by simp_all
  from assms ce(1) have c: "is_float64 (Finite c)" by simp
  from is_float64_cost [of R f] ce(2) have e: "is_float64 (Finite e)" by simp
  show "fsign (calc_monthly_savings R f) = Some (sgn (c - e))"
    unfolding calc_monthly_savings_def ce by (rule fsign_savings [OF c e])
next
  fix c
  assume "current_cost f = Finite c \<and> 0 < c"
  then have cc: "current_cost f = Finite c" and cpos: "0 < c" by simp_all
  from assms cc have c: "is_float64 (Finite c)" by simp
  from percentage_sign [OF c cpos is_float64_cost [of R f]]
  obtain d where d: "fdiv (fsub (Finite c) (calc_lekalink_cost R f)) (Finite c) = Inr d"
    "fsign (fmul d (Finite 100)) = fsign (fsub (Finite c) (calc_lekalink_cost R f))"
    by blast
  from cpos have "fne (Finite c) (float_of_int 0)" by (simp add: fne_def float_of_int_0)
  then have "calc_percentage_savings R f = Inr (fmul d (Finite 100))"
    using d(1) by (simp add: calc_percentage_savings_def calc_monthly_savings_def cc
        float_of_int_100 del: fdiv.simps fmul.simps)
  with d(2) show "\<exists>p. calc_percentage_savings R f = Inr p
      \<and> fsign p = fsign (calc_monthly_savings R f)"
    by (simp add: calc_monthly_savings_def cc del: fmul.simps)
next
  assume "current_cost f = Finite 0"
  then show "calc_percentage_savings R f = Inr (Finite 0)" by (rule percentage_zero_cost)
qed

text \<open>
  C3 as stated fails when the current monthly cost is zero and the estimated cost is not:
  with one machine at the default rate the monthly savings are negative and the percentage
  is zero.
\<close>

theorem C3_counterexample:
  "calculate initial_rates
     \<lparr>vms = 1, storage = Finite 0, bandwidth = Finite 0, current_cost = Finite 0,
      company_name = ''Acme'', contact_name = ''Ann'', job_title = ''CTO'',
      email = ''ann@acme.example'', phone = ''555''\<rparr>
   = Inr (Finite (7602903003745485 / 8796093022208),
          Finite (- (7602903003745485 / 8796093022208)),
          Finite 0)
   \<and> fsign (Finite (- (7602903003745485 / 8796093022208))) = Some (- 1)
   \<and> fsign (Finite 0) = Some 0"
  by (simp add: ex1_calculate)

text \<open>C3 at the example of the specification and at a current cost of zero.\<close>

theorem C3_witness:
  "is_float64 (Finite 3000)
   \<and> fsign (calc_monthly_savings initial_rates
       \<lparr>vms = 2, storage = Finite 1, bandwidth = Finite 10, current_cost = Finite 3000,
        company_name = ''Acme'', contact_name = ''Ann'', job_title = ''CTO'',
        email = ''ann@acme.example'', phone = ''555''\<rparr>) = Some 1
   \<and> (\<exists>p. calc_percentage_savings initial_rates
       \<lparr>vms = 2, storage = Finite 1, bandwidth = Finite 10, current_cost = Finite 3000,
        company_name = ''Acme'', contact_name = ''Ann'', job_title = ''CTO'',
        email = ''ann@acme.example'', phone = ''555''\<rparr> = Inr p \<and> fsign p = Some 1)
   \<and> calc_percentage_savings initial_rates
       \<lparr>vms = 1, storage = Finite 0, bandwidth = Finite 0, current_cost = Finite 0,
        company_name = ''Acme'', contact_name = ''Ann'', job_title = ''CTO'',
        email = ''ann@acme.example'', phone = ''555''\<rparr> = Inr (Finite 0)"
proof -
  let ?f0 = "\<lparr>vms = 1, storage = Finite 0, bandwidth = Finite 0, current_cost = Finite 0,
      company_name = ''Acme'', contact_name = ''Ann'', job_title = ''CTO'',
      email = ''ann@acme.example'', phone = ''555''\<rparr>"
  let ?f1 = "\<lparr>vms = 2, storage = Finite 1, bandwidth = Finite 10, current_cost = Finite 3000,
      company_name = ''Acme'', contact_name = ''Ann'', job_title = ''CTO'',
      email = ''ann@acme.example'', phone = ''555''\<rparr>"
  have v: "is_float64 (Finite 3000)" using round64_of_int [of 3000] by simp
  have v0: "is_float64 (Finite 0)" by (simp add: round64_def)
  have v1: "is_float64 (current_cost ?f1)" using v by simp
  have v0': "is_float64 (current_cost ?f0)" using v0 by simp
  note t1 = C3_signs [OF v1, of initial_rates]
  note t0 = C3_signs [OF v0', of initial_rates]
  have "current_cost ?f1 = Finite 3000
      \<and> calc_lekalink_cost initial_rates ?f1 = Finite (5880408087671603 / 2199023255552)"
    by (simp add: ex_cost)
  with t1 have "fsign (calc_monthly_savings initial_rates ?f1)
      = Some (sgn (3000 - 5880408087671603 / 2199023255552))"
    by blast
  then have a: "fsign (calc_monthly_savings initial_rates ?f1) = Some 1" by simp
  have "current_cost ?f1 = Finite 3000 \<and> (0::rat) < 3000" by simp
  with t1 have "\<exists>p. calc_percentage_savings initial_rates ?f1 = Inr p
      \<and> fsign p = fsign (calc_monthly_savings initial_rates ?f1)"
    by blast
  with a have b: "\<exists>p. calc_percentage_savings initial_rates ?f1 = Inr p \<and> fsign p = Some 1"
    by simp
  from t0 have c: "calc_percentage_savings initial_rates ?f0 = Inr (Finite 0)" by simp
  from v a b c show ?thesis by (intro conjI)
qed

subsection \<open>C4: validation of the contact fields\<close>

text \<open>
  C4, as amended. Validation succeeds exactly when all five contact fields are not empty.
  When one or more of them is empty, validation fails and the computation is blocked: the
  press of the button shows one error message and nothing else (no estimate, no document,
  no mail), and that message names the first empty field in the order company name,
  contact name, job title, email, phone.
\<close>

theorem C4_validation:
  "(fst (validate_inputs (company_name f) (contact_name f) (job_title f) (email f) (phone f))
      \<longleftrightarrow> company_name f \<noteq> [] \<and> contact_name f \<noteq> [] \<and> job_title f \<noteq> []
          \<and> email f \<noteq> [] \<and> phone f \<noteq> [])
   \<and> (\<not> fst (validate_inputs (company_name f) (contact_name f) (job_title f) (email f) (phone f))
        \<longrightarrow> on_click logo smtp R f =
          ([StError [Lit ((if company_name f = [] then ''Company Name''
                           else if contact_name f = [] then ''Contact Name''
                           else if job_title f = [] then ''Job Title''
                           else if email f = [] then ''Email'' else ''Phone Number'')
                          @ '' is required.'')]], None))"
  using validate_fails [of "company_name f" "contact_name f" "job_title f" "email f" "phone f"]
  by (auto simp only: validate_ok_iff dest!: on_click_blocked [of f _ logo smtp R])

text \<open>C4 at a form whose company name and contact name are both empty.\<close>

theorem C4_witness:
  "\<not> fst (validate_inputs [] [] ''CTO'' ''ann@acme.example'' ''555'')
   \<and> on_click LogoAbsent Map.empty initial_rates
       \<lparr>vms = 2, storage = Finite 1, bandwidth = Finite 10, current_cost = Finite 3000,
        company_name = [], contact_name = [], job_title = ''CTO'',
        email = ''ann@acme.example'', phone = ''555''\<rparr>
     = ([StError [Lit ''Company Name is required.'']], None)"
  using C4_validation [of "\<lparr>vms = 2, storage = Finite 1, bandwidth = Finite 10,
        current_cost = Finite 3000,
        company_name = [], contact_name = [], job_title = ''CTO'',
        email = ''ann@acme.example'', phone = ''555''\<rparr>" LogoAbsent Map.empty initial_rates]
  by simp

text \<open>
  C4 as stated fails when two fields are empty: with the company name and the contact name
  empty, the empty contact name is not reported.
\<close>

theorem C4_counterexample:
  "StError [Lit ''Contact Name is required.'']
     \<notin> set (snd (validate_inputs [] [] ''CTO'' ''ann@acme.example'' ''555''))"
  by (simp add: validate_inputs_def)

subsection \<open>C5: each rate falls back on its own\<close>



subsection \<open>C6: which rates come from the price sheet\<close>




subsection \<open>C7: the storage rate is converted, the machine rate is not\<close>



subsection \<open>C8: the logo and the render\<close>

text \<open>
  C8 holds when the logo file is absent and fails when the file is there but cannot be
  read: the handler reports the error, and the next statement reads the variable
  \<^verbatim>\<open>y_position_logo\<close>, which was never assigned, so that \<^verbatim>\<open>create_pdf\<close> raises
  instead of returning a document. The same happens for an image of width zero. With the
  file absent the document is rendered after a warning.
\<close>

theorem C8_unreadable_logo_raises:
  "create_pdf LogoUnreadable data = ([logo_error OtherException], Inl UnboundLocalError)
   \<and> create_pdf (LogoImage 0 h) data = ([logo_error ZeroDivisionError], Inl UnboundLocalError)
   \<and> create_pdf LogoAbsent data =
       ([StWarning [Lit (''LekaLink logo not found at '' @ LEKALINK_LOGO_PATH
                         @ ''. Skipping logo in PDF.'')]],
        Inr (page_body data (down (Finite 792) (15 / 10))))"
  by (simp only: create_pdf_unreadable create_pdf_zero_width create_pdf_absent)

subsection \<open>C9: a failing mail transport\<close>



subsection \<open>C10: the itemized amounts and the total\<close>



end
